theory Spec2Isabelle
  imports Main "HOL-Library.Word"
begin

section \<open>Text\<close>

text \<open>
  A Python \<open>str\<close> is modelled as a \<^typ>\<open>string\<close>, one \<^typ>\<open>char\<close> per character, so
  that \<open>len\<close> is \<^const>\<open>length\<close>.  The case mappings, the white space and the number
  syntax below are those Python applies to ASCII text; the pictographs of the fixed
  captions are spelled by their UTF-8 bytes.
\<close>

definition isspace :: "char \<Rightarrow> bool" where
  \<comment> \<open>the characters \<open>str.strip()\<close> removes: TAB, LF, VT, FF, CR, FS, GS, RS, US, space\<close>
  "isspace c = (let n = (of_char c :: nat) in (9 \<le> n \<and> n \<le> 13) \<or> (28 \<le> n \<and> n \<le> 32))"

definition lstrip :: "string \<Rightarrow> string" where
  "lstrip s = dropWhile isspace s"

definition rstrip :: "string \<Rightarrow> string" where
  "rstrip s = rev (dropWhile isspace (rev s))"

definition strip :: "string \<Rightarrow> string" where
  "strip s = rstrip (lstrip s)"

definition ascii_lowercase :: string where
  "ascii_lowercase = ''abcdefghijklmnopqrstuvwxyz''"

definition ascii_uppercase :: string where
  "ascii_uppercase = ''ABCDEFGHIJKLMNOPQRSTUVWXYZ''"

definition upper_char :: "char \<Rightarrow> char" where
  "upper_char c =
     (case map_of (zip ascii_lowercase ascii_uppercase) c of Some u \<Rightarrow> u | None \<Rightarrow> c)"

definition lower_char :: "char \<Rightarrow> char" where
  "lower_char c =
     (case map_of (zip ascii_uppercase ascii_lowercase) c of Some l \<Rightarrow> l | None \<Rightarrow> c)"

definition upper :: "string \<Rightarrow> string" where
  "upper s = map upper_char s"

definition lower :: "string \<Rightarrow> string" where
  "lower s = map lower_char s"

definition startswith :: "string \<Rightarrow> string \<Rightarrow> bool" where
  \<comment> \<open>\<open>s.startswith(p)\<close>\<close>
  "startswith s p = (take (length p) s = p)"

definition endswith :: "string \<Rightarrow> string \<Rightarrow> bool" where
  \<comment> \<open>\<open>s.endswith(p)\<close>\<close>
  "endswith s p = (length p \<le> length s \<and> drop (length s - length p) s = p)"

fun py_in :: "string \<Rightarrow> string \<Rightarrow> bool" where
  \<comment> \<open>\<open>k in s\<close> on strings: \<open>k\<close> occurs in \<open>s\<close> as a contiguous substring\<close>
  "py_in k [] = (k = [])"
| "py_in k (c # s) = (startswith (c # s) k \<or> py_in k s)"

section \<open>The query guard (\<open>src/database/sql_engine.py\<close>, \<open>validate_sql_query\<close>)\<close>

definition dangerous_keywords :: "string list" where
  "dangerous_keywords =
     [''DROP'', ''DELETE'', ''UPDATE'', ''INSERT'', ''ALTER'', ''CREATE'', ''TRUNCATE'']"

fun first_keyword :: "string list \<Rightarrow> string \<Rightarrow> string option" where
  \<comment> \<open>the \<open>for keyword in dangerous_keywords\<close> loop: the keyword it returns on, if any\<close>
  "first_keyword [] query_upper = None"
| "first_keyword (keyword # rest) query_upper =
     (if py_in keyword query_upper then Some keyword else first_keyword rest query_upper)"

definition validate_sql_query :: "string \<Rightarrow> bool \<times> string" where
  "validate_sql_query query0 =
     (let query = strip query0;
          query_upper = upper query
      in case first_keyword dangerous_keywords query_upper of
           Some keyword \<Rightarrow> (False, ''Query contains dangerous keyword: '' @ keyword)
         | None \<Rightarrow>
             if \<not> startswith query_upper ''SELECT''
             then (False, ''Only SELECT queries are allowed in learning mode'')
             else if \<not> endswith (rstrip query) '';''
             then (False, ''Query should end with a semicolon (;)'')
             else (True, ''Query validation passed''))"

section \<open>Values and rows\<close>

text \<open>
  The rows are those \<open>execute_query\<close> returns: one \<open>dict\<close> per row of the SQLite
  cursor, in column order.  A value is what \<open>sqlite3\<close> hands to Python: \<open>None\<close> for NULL,
  an \<open>int\<close> for INTEGER (SQLite stores 64-bit signed integers), a \<open>float\<close> for REAL, a
  \<open>str\<close> for TEXT and \<open>bytes\<close> for BLOB.  A float is carried by the text \<open>str\<close> gives for
  it, which is all the code reads of it.  A row is an association list in key order.
\<close>

datatype py_error = ValueError | TypeError | KeyError

datatype py_value = PyNone | PyInt "64 word" | PyFloat string | PyStr string | PyBytes string

type_synonym row = "(string \<times> py_value) list"

definition NL :: string where
  "NL = [CHR 0x0A]"

definition digit_char :: "nat \<Rightarrow> char" where
  "digit_char d = ''0123456789'' ! d"

fun str_nat :: "nat \<Rightarrow> string" where
  \<comment> \<open>\<open>str(n)\<close> of a non-negative integer: its decimal digits\<close>
  "str_nat n = (if n < 10 then [digit_char n] else str_nat (n div 10) @ [digit_char (n mod 10)])"

declare str_nat.simps [simp del]

definition str_int :: "int \<Rightarrow> string" where
  "str_int i = (if i < 0 then ''-'' @ str_nat (nat (- i)) else str_nat (nat i))"

definition hexdigits :: string where
  "hexdigits = ''0123456789abcdef''"

definition bytes_repr_char :: "char \<Rightarrow> char \<Rightarrow> string" where
  "bytes_repr_char quote c =
     (let n = (of_char c :: nat) in
      if c = quote \<or> c = CHR 0x5C then [CHR 0x5C, c]
      else if c = CHR 0x09 then [CHR 0x5C, CHR ''t'']
      else if c = CHR 0x0A then [CHR 0x5C, CHR ''n'']
      else if c = CHR 0x0D then [CHR 0x5C, CHR ''r'']
      else if n < 32 \<or> 127 \<le> n then [CHR 0x5C, CHR ''x'', hexdigits ! (n div 16), hexdigits ! (n mod 16)]
      else [c])"

definition bytes_repr :: "string \<Rightarrow> string" where
  \<comment> \<open>\<open>str(b)\<close> of a bytes object: \<open>b'...'\<close>, in double quotes when it holds \<open>'\<close> and no \<open>"\<close>\<close>
  "bytes_repr b =
     (let quote = (if CHR 0x27 \<in> set b \<and> CHR 0x22 \<notin> set b then CHR 0x22 else CHR 0x27)
      in ''b'' @ [quote] @ concat (map (bytes_repr_char quote) b) @ [quote])"

fun py_str :: "py_value \<Rightarrow> string" where
  "py_str PyNone = ''None''"
| "py_str (PyInt i) = str_int (sint i)"
| "py_str (PyFloat r) = r"
| "py_str (PyStr s) = s"
| "py_str (PyBytes b) = bytes_repr b"

subsection \<open>\<open>float(x)\<close>\<close>

definition is_digit :: "char \<Rightarrow> bool" where
  "is_digit c = (c \<in> set ''0123456789'')"

definition c_isspace :: "char \<Rightarrow> bool" where
  \<comment> \<open>the white space \<open>float\<close> skips around a number: TAB, LF, VT, FF, CR, space\<close>
  "c_isspace c = (let n = (of_char c :: nat) in (9 \<le> n \<and> n \<le> 13) \<or> n = 32)"

definition skip_sign :: "string \<Rightarrow> string" where
  "skip_sign s = (case s of [] \<Rightarrow> [] | c # t \<Rightarrow> if c = CHR ''+'' \<or> c = CHR ''-'' then t else s)"

fun skip_digits :: "string \<Rightarrow> string" where
  \<comment> \<open>drops \<open>(["_"] digit)*\<close>\<close>
  "skip_digits [] = []"
| "skip_digits [c] = (if is_digit c then [] else [c])"
| "skip_digits (c # d # s) =
     (if is_digit c then skip_digits (d # s)
      else if c = CHR ''_'' \<and> is_digit d then skip_digits s
      else c # d # s)"

definition digitpart :: "string \<Rightarrow> string option" where
  \<comment> \<open>\<open>digit (["_"] digit)*\<close>: what follows it, or \<open>None\<close> when the text has no leading digit\<close>
  "digitpart s = (case s of [] \<Rightarrow> None | c # t \<Rightarrow> if is_digit c then Some (skip_digits t) else None)"

definition number :: "string \<Rightarrow> string option" where
  \<comment> \<open>\<open>[digitpart] "." digitpart | digitpart ["."]\<close>\<close>
  "number s =
     (case digitpart s of
        Some t \<Rightarrow>
          (if t \<noteq> [] \<and> hd t = CHR ''.''
           then (case digitpart (tl t) of Some v \<Rightarrow> Some v | None \<Rightarrow> Some (tl t))
           else Some t)
      | None \<Rightarrow> (if s \<noteq> [] \<and> hd s = CHR ''.'' then digitpart (tl s) else None))"

definition exponent :: "string \<Rightarrow> string option" where
  \<comment> \<open>\<open>("e" | "E") ["+" | "-"] digitpart\<close>\<close>
  "exponent s =
     (case s of [] \<Rightarrow> None
      | c # t \<Rightarrow> if c = CHR ''e'' \<or> c = CHR ''E'' then digitpart (skip_sign t) else None)"

definition floatnumber :: "string \<Rightarrow> bool" where
  "floatnumber s = (case number s of None \<Rightarrow> False | Some t \<Rightarrow> t = [] \<or> exponent t = Some [])"

definition float_syntax :: "string \<Rightarrow> bool" where
  \<comment> \<open>the texts \<open>float\<close> accepts: a signed decimal number, infinity or nan, in white space\<close>
  "float_syntax s =
     (let t = skip_sign (rev (dropWhile c_isspace (rev (dropWhile c_isspace s))))
      in floatnumber t \<or> lower t \<in> set [''inf'', ''infinity'', ''nan''])"

fun py_float :: "py_value \<Rightarrow> py_error + unit" where
  \<comment> \<open>whether \<open>float(x)\<close> returns or raises; the number itself is dropped by the caller\<close>
  "py_float PyNone = Inl TypeError"
| "py_float (PyInt i) = Inr ()"
| "py_float (PyFloat r) = Inr ()"
| "py_float (PyStr s) = (if float_syntax s then Inr () else Inl ValueError)"
| "py_float (PyBytes b) = (if float_syntax b then Inr () else Inl ValueError)"

section \<open>The result formatter (\<open>src/gui/sql_tutor.py\<close>)\<close>

text \<open>
  \<open>display_query_results\<close> clears the text widget and then only inserts at its end, so
  the report is the sequence of the inserted strings, in order.  An exception of the
  Python code is a result \<open>Inl\<close>.
\<close>

definition memo :: string where
  "memo = [CHR 0xF0, CHR 0x9F, CHR 0x93, CHR 0x9D]"

definition bar_chart :: string where
  "bar_chart = [CHR 0xF0, CHR 0x9F, CHR 0x93, CHR 0x8A]"

definition chart_up :: string where
  "chart_up = [CHR 0xF0, CHR 0x9F, CHR 0x93, CHR 0x88]"

definition bulb :: string where
  "bulb = [CHR 0xF0, CHR 0x9F, CHR 0x92, CHR 0xA1]"

definition target :: string where
  "target = [CHR 0xF0, CHR 0x9F, CHR 0x8E, CHR 0xAF]"

definition bullet :: string where
  "bullet = [CHR 0xE2, CHR 0x80, CHR 0xA2]"

definition row_get :: "row \<Rightarrow> string \<Rightarrow> py_value" where
  \<comment> \<open>\<open>row.get(col, '')\<close>\<close>
  "row_get row col = (case map_of row col of Some v \<Rightarrow> v | None \<Rightarrow> PyStr [])"

definition ljust :: "nat \<Rightarrow> string \<Rightarrow> string" where
  \<comment> \<open>the format \<open>f"{s:<{w}}"\<close>: blanks appended up to \<open>w\<close> characters, a longer text unchanged\<close>
  "ljust w s = s @ replicate (w - length s) CHR '' ''"

fun join :: "string \<Rightarrow> string list \<Rightarrow> string" where
  \<comment> \<open>\<open>sep.join(xs)\<close>\<close>
  "join sep [] = []"
| "join sep [x] = x"
| "join sep (x # y # xs) = x @ sep @ join sep (y # xs)"

fun py_max :: "nat list \<Rightarrow> py_error + nat" where
  \<comment> \<open>\<open>max(iterable)\<close>, which raises ValueError on an empty iterable\<close>
  "py_max [] = Inl ValueError"
| "py_max (x # xs) = Inr (fold max xs x)"

definition col_width :: "row list \<Rightarrow> string \<Rightarrow> py_error + nat" where
  \<comment> \<open>the two assignments to \<open>col_widths[col]\<close>\<close>
  "col_width results col =
     (case py_max (map (\<lambda>row. length (py_str (row_get row col))) (take 10 results)) of
        Inl e \<Rightarrow> Inl e
      | Inr m \<Rightarrow> Inr (min (max (length col) m) 20))"

fun calc_col_widths ::
  "string list \<Rightarrow> row list \<Rightarrow> (string \<rightharpoonup> nat) \<Rightarrow> py_error + (string \<rightharpoonup> nat)" where
  \<comment> \<open>the loop \<open>for col in columns\<close> that fills the dict \<open>col_widths\<close>\<close>
  "calc_col_widths [] results col_widths = Inr col_widths"
| "calc_col_widths (col # columns) results col_widths =
     (case col_width results col of
        Inl e \<Rightarrow> Inl e
      | Inr w \<Rightarrow> calc_col_widths columns results (col_widths(col \<mapsto> w)))"

fun cells ::
  "(string \<rightharpoonup> nat) \<Rightarrow> (string \<Rightarrow> string) \<Rightarrow> string list \<Rightarrow> py_error + string list" where
  \<comment> \<open>the generator \<open>f"{text:<{col_widths[col]}}" for col in columns\<close>;
      \<open>col_widths[col]\<close> raises KeyError on a missing key\<close>
  "cells col_widths text [] = Inr []"
| "cells col_widths text (col # columns) =
     (case col_widths col of
        None \<Rightarrow> Inl KeyError
      | Some w \<Rightarrow>
          (case cells col_widths text columns of
             Inl e \<Rightarrow> Inl e
           | Inr cs \<Rightarrow> Inr (ljust w (text col) # cs)))"

definition header_text :: "(string \<rightharpoonup> nat) \<Rightarrow> string list \<Rightarrow> py_error + string" where
  "header_text col_widths columns =
     (case cells col_widths (\<lambda>col. col) columns of
        Inl e \<Rightarrow> Inl e
      | Inr cs \<Rightarrow> Inr (join '' | '' cs))"

definition row_text :: "(string \<rightharpoonup> nat) \<Rightarrow> string list \<Rightarrow> row \<Rightarrow> py_error + string" where
  "row_text col_widths columns row =
     (case cells col_widths (\<lambda>col. py_str (row_get row col)) columns of
        Inl e \<Rightarrow> Inl e
      | Inr cs \<Rightarrow> Inr (join '' | '' cs))"

fun data_rows ::
  "(string \<rightharpoonup> nat) \<Rightarrow> string list \<Rightarrow> row list \<Rightarrow> py_error + string list" where
  \<comment> \<open>the loop over \<open>results[:100]\<close>: one inserted line per row\<close>
  "data_rows col_widths columns [] = Inr []"
| "data_rows col_widths columns (row # rows) =
     (case row_text col_widths columns row of
        Inl e \<Rightarrow> Inl e
      | Inr t \<Rightarrow>
          (case data_rows col_widths columns rows of
             Inl e \<Rightarrow> Inl e
           | Inr ls \<Rightarrow> Inr ((t @ NL) # ls)))"

fun numeric_cols :: "row \<Rightarrow> string list \<Rightarrow> py_error + string list" where
  \<comment> \<open>the loop with \<open>try: float(results[0].get(col, '')) ... except (ValueError, TypeError): pass\<close>\<close>
  "numeric_cols first [] = Inr []"
| "numeric_cols first (col # columns) =
     (case py_float (row_get first col) of
        Inr _ \<Rightarrow>
          (case numeric_cols first columns of Inl e \<Rightarrow> Inl e | Inr cs \<Rightarrow> Inr (col # cs))
      | Inl e \<Rightarrow>
          if e = ValueError \<or> e = TypeError then numeric_cols first columns else Inl e)"

definition date_cols :: "string list \<Rightarrow> string list" where
  "date_cols columns =
     filter (\<lambda>col. py_in ''date'' (lower col) \<or> py_in ''time'' (lower col)) columns"

definition analysis_head :: "row list \<Rightarrow> string list \<Rightarrow> string list" where
  \<comment> \<open>the five insertions that open \<open>add_result_analysis\<close>\<close>
  "analysis_head results columns =
     [NL @ replicate 50 CHR ''='' @ NL,
      chart_up @ '' Result Analysis:'' @ NL @ NL,
      bullet @ '' Total rows: '' @ str_nat (length results) @ NL,
      bullet @ '' Columns: '' @ str_nat (length columns) @ NL,
      bullet @ '' Column names: '' @ join '', '' columns @ NL @ NL]"

definition numeric_note :: "string list \<Rightarrow> string list" where
  "numeric_note cs =
     (if cs \<noteq> []
      then [bullet @ '' Numeric columns detected: '' @ join '', '' cs @ NL,
            ''  Try using functions like SUM(), AVG(), MIN(), MAX() on these!'' @ NL]
      else [])"

definition date_note :: "string list \<Rightarrow> string list" where
  "date_note cs =
     (if cs \<noteq> []
      then [bullet @ '' Date columns: '' @ join '', '' cs @ NL,
            ''  Try using date functions and ORDER BY for time-based analysis!'' @ NL]
      else [])"

definition next_steps :: "row list \<Rightarrow> string list" where
  "next_steps results =
     [NL @ target @ '' Try these next:'' @ NL] @
     (if length results > 1
      then [bullet @ '' Add WHERE clauses to filter specific data'' @ NL,
            bullet @ '' Use ORDER BY to sort the results'' @ NL,
            bullet @ '' Try GROUP BY for data aggregation'' @ NL]
      else [])"

definition add_result_analysis :: "row list \<Rightarrow> string list \<Rightarrow> py_error + string list" where
  "add_result_analysis results columns =
     (case results of
        [] \<Rightarrow> Inr (analysis_head results columns)
      | first # _ \<Rightarrow>
          (case numeric_cols first columns of
             Inl e \<Rightarrow> Inl e
           | Inr ncs \<Rightarrow>
               Inr (analysis_head results columns @ [bulb @ '' Learning Notes:'' @ NL] @
                    numeric_note ncs @ date_note (date_cols columns) @ next_steps results)))"

definition no_rows_text :: "string list" where
  \<comment> \<open>the five insertions of the branch \<open>if not results\<close>\<close>
  "no_rows_text =
     [bar_chart @ '' Results: No rows returned.'' @ NL @ NL,
      bulb @ '' This might mean:'' @ NL,
      ''   '' @ bullet @ '' The query conditions didn't match any data'' @ NL,
      ''   '' @ bullet @ '' The table is empty'' @ NL,
      ''   '' @ bullet @ '' There might be a logical error in the query'' @ NL]"

definition more_rows :: "row list \<Rightarrow> string list" where
  "more_rows results =
     (if length results > 100
      then [NL @ ''... and '' @ str_nat (length results - 100) @ '' more rows'' @ NL]
      else [])"

definition display_query_results :: "string \<Rightarrow> row list \<Rightarrow> py_error + string list" where
  "display_query_results query results =
     (let shown = [memo @ '' Executed Query:'' @ NL @ query @ NL @ NL] in
      case results of
        [] \<Rightarrow> Inr (shown @ no_rows_text)
      | first # _ \<Rightarrow>
          (let count = bar_chart @ '' Results: '' @ str_nat (length results) @ '' row(s) returned'' @ NL @ NL;
               columns = map fst first
           in case calc_col_widths columns results Map.empty of
                Inl e \<Rightarrow> Inl e
              | Inr col_widths \<Rightarrow>
                  (case header_text col_widths columns of
                     Inl e \<Rightarrow> Inl e
                   | Inr header \<Rightarrow>
                       (case data_rows col_widths columns (take 100 results) of
                          Inl e \<Rightarrow> Inl e
                        | Inr lines \<Rightarrow>
                            (case add_result_analysis results columns of
                               Inl e \<Rightarrow> Inl e
                             | Inr analysis \<Rightarrow>
                                 Inr (shown @ [count, header @ NL,
                                               replicate (length header) CHR ''-'' @ NL] @
                                      lines @ more_rows results @ analysis))))))"

subsection \<open>Closed forms of the table\<close>

text \<open>
  The width of a column as the specification words it, and the header and data lines
  written with it; the lemmas below show that the code computes exactly these.
\<close>

definition spec_col_width :: "row list \<Rightarrow> string \<Rightarrow> nat" where
  "spec_col_width results col =
     min 20 (max (length col)
                 (Max (set (map (\<lambda>row. length (py_str (row_get row col))) (take 10 results)))))"

definition table_header :: "row list \<Rightarrow> string list \<Rightarrow> string" where
  "table_header results columns =
     join '' | '' (map (\<lambda>col. ljust (spec_col_width results col) col) columns)"

definition table_line :: "row list \<Rightarrow> string list \<Rightarrow> row \<Rightarrow> string" where
  "table_line results columns row =
     join '' | '' (map (\<lambda>col. ljust (spec_col_width results col) (py_str (row_get row col))) columns)"

section \<open>Properties of the query guard\<close>

lemma py_in_iff: "py_in k s \<longleftrightarrow> (\<exists>ps ss. s = ps @ k @ ss)"
proof (induction s)
  case Nil
  then show ?case by auto
next
  case (Cons c s)
  have "startswith (c # s) k \<longleftrightarrow> (\<exists>ss. c # s = k @ ss)"
    unfolding startswith_def
    by (metis append_eq_conv_conj append_take_drop_id)
  moreover have "(\<exists>ps ss. c # s = ps @ k @ ss) \<longleftrightarrow> (\<exists>ss. c # s = k @ ss) \<or> (\<exists>ps ss. s = ps @ k @ ss)"
  proof
    assume "\<exists>ps ss. c # s = ps @ k @ ss"
    then obtain ps ss where e: "c # s = ps @ k @ ss" by blast
    show "(\<exists>ss. c # s = k @ ss) \<or> (\<exists>ps ss. s = ps @ k @ ss)"
    proof (cases ps)
      case Nil
      with e show ?thesis by auto
    next
      case (Cons p ps')
      with e have "s = ps' @ k @ ss" by simp
      then show ?thesis by blast
    qed
  next
    assume "(\<exists>ss. c # s = k @ ss) \<or> (\<exists>ps ss. s = ps @ k @ ss)"
    then show "\<exists>ps ss. c # s = ps @ k @ ss"
    proof
      assume "\<exists>ss. c # s = k @ ss"
      then obtain ss where "c # s = [] @ k @ ss" by auto
      then show ?thesis by blast
    next
      assume "\<exists>ps ss. s = ps @ k @ ss"
      then obtain ps ss where "s = ps @ k @ ss" by blast
      then have "c # s = (c # ps) @ k @ ss" by simp
      then show ?thesis by blast
    qed
  qed
  ultimately show ?case using Cons.IH by simp
qed


lemma first_keyword_eq:
  "first_keyword ks qu = (case filter (\<lambda>k. py_in k qu) ks of [] \<Rightarrow> None | k # _ \<Rightarrow> Some k)"
  by (induction ks) auto

lemma first_keyword_hd:
  assumes "k \<in> set ks" and "py_in k qu"
  shows "first_keyword ks qu = Some (hd (filter (\<lambda>k. py_in k qu) ks))"
proof -
  from assms have "filter (\<lambda>k. py_in k qu) ks \<noteq> []"
    by (auto simp: filter_empty_conv)
  then show ?thesis
    by (simp add: first_keyword_eq split: list.splits)
qed

lemma rstrip_idem: "rstrip (rstrip s) = rstrip s"
  by (simp add: rstrip_def dropWhile_idem)

lemma rstrip_strip: "rstrip (strip s) = strip s"
  by (simp add: strip_def rstrip_idem)

lemma validate_keyword:
  assumes "first_keyword dangerous_keywords (upper (strip q)) = Some k"
  shows "validate_sql_query q = (False, ''Query contains dangerous keyword: '' @ k)"
  using assms by (simp add: validate_sql_query_def)

lemma validate_no_keyword:
  assumes "first_keyword dangerous_keywords (upper (strip q)) = None"
  shows "validate_sql_query q =
     (if \<not> startswith (upper (strip q)) ''SELECT''
      then (False, ''Only SELECT queries are allowed in learning mode'')
      else if \<not> endswith (strip q) '';''
      then (False, ''Query should end with a semicolon (;)'')
      else (True, ''Query validation passed''))"
  using assms by (simp add: validate_sql_query_def rstrip_strip)

lemma strip_all_space:
  assumes "\<forall>c\<in>set q. isspace c"
  shows "strip q = []"
proof -
  have d: "dropWhile isspace q = []"
    using assms by (rule dropWhile_eq_Nil_conv [THEN iffD2])
  show ?thesis
    unfolding strip_def lstrip_def rstrip_def d by simp
qed

lemma first_keyword_Some:
  "first_keyword ks qu = Some k \<Longrightarrow> k \<in> set ks \<and> py_in k qu"
  by (induction ks) (auto split: if_splits)

text \<open>
  C1.  A query whose trimmed, upper-cased text contains a keyword of the deny list is
  rejected with the reason \<open>Query contains dangerous keyword: K\<close>, where \<open>K\<close> is the first
  keyword of the list, in the order of the list, that the text contains.  Nothing is
  assumed about the SELECT prefix or the final semicolon: the keyword check comes first.
\<close>

theorem validate_rejects_first_dangerous_keyword:
  assumes "k \<in> set dangerous_keywords" and "py_in k (upper (strip q))"
  shows "dangerous_keywords =
           [''DROP'', ''DELETE'', ''UPDATE'', ''INSERT'', ''ALTER'', ''CREATE'', ''TRUNCATE''] \<and>
         validate_sql_query q =
           (False, ''Query contains dangerous keyword: '' @
                   hd (filter (\<lambda>kw. py_in kw (upper (strip q))) dangerous_keywords))"
proof -
  have "first_keyword dangerous_keywords (upper (strip q)) =
          Some (hd (filter (\<lambda>kw. py_in kw (upper (strip q))) dangerous_keywords))"
    using assms by (rule first_keyword_hd)
  then show ?thesis
    by (simp add: validate_keyword) (simp add: dangerous_keywords_def)
qed

theorem validate_rejects_first_dangerous_keyword_witness:
  "py_in ''INSERT'' (upper (strip ''select * from updates; insert'')) \<and>
   validate_sql_query ''select * from updates; insert'' =
     (False, ''Query contains dangerous keyword: UPDATE'')"
proof -
  have h1: "''INSERT'' \<in> set dangerous_keywords"
    by (simp add: dangerous_keywords_def)
  have h2: "py_in ''INSERT'' (upper (strip ''select * from updates; insert''))"
    by code_simp
  have h3: "hd (filter (\<lambda>kw. py_in kw (upper (strip ''select * from updates; insert'')))
                  dangerous_keywords) = ''UPDATE''"
    by code_simp
  show ?thesis
    using validate_rejects_first_dangerous_keyword [OF h1 h2] h2 h3 by simp
qed



text \<open>
  C9.  \<open>validate_sql_query\<close> has no failing branch: every text is mapped to one of the
  four verdicts.  The empty text, the text \<open>;\<close> and every text of white space only are
  rejected by the SELECT-prefix check.
\<close>

theorem validate_total:
  "(validate_sql_query q = (True, ''Query validation passed'') \<or>
    validate_sql_query q = (False, ''Only SELECT queries are allowed in learning mode'') \<or>
    validate_sql_query q = (False, ''Query should end with a semicolon (;)'') \<or>
    (\<exists>k\<in>set dangerous_keywords.
       validate_sql_query q = (False, ''Query contains dangerous keyword: '' @ k))) \<and>
   validate_sql_query [] = (False, ''Only SELECT queries are allowed in learning mode'') \<and>
   validate_sql_query '';'' = (False, ''Only SELECT queries are allowed in learning mode'') \<and>
   ((\<forall>c\<in>set q. isspace c) \<longrightarrow>
      validate_sql_query q = (False, ''Only SELECT queries are allowed in learning mode''))"
proof -
  have total: "validate_sql_query q = (True, ''Query validation passed'') \<or>
    validate_sql_query q = (False, ''Only SELECT queries are allowed in learning mode'') \<or>
    validate_sql_query q = (False, ''Query should end with a semicolon (;)'') \<or>
    (\<exists>k\<in>set dangerous_keywords.
       validate_sql_query q = (False, ''Query contains dangerous keyword: '' @ k))"
  proof (cases "first_keyword dangerous_keywords (upper (strip q))")
    case None
    then show ?thesis using validate_no_keyword [OF None] by auto
  next
    case (Some k)
    then have "k \<in> set dangerous_keywords"
      by (simp add: first_keyword_Some)
    then show ?thesis using validate_keyword [OF Some] by blast
  qed
  have empty: "validate_sql_query [] = (False, ''Only SELECT queries are allowed in learning mode'')"
    by code_simp
  have semi: "validate_sql_query '';'' = (False, ''Only SELECT queries are allowed in learning mode'')"
    by code_simp
  have blank: "validate_sql_query q = (False, ''Only SELECT queries are allowed in learning mode'')"
    if "\<forall>c\<in>set q. isspace c"
  proof -
    have e: "strip q = []" using that by (rule strip_all_space)
    have "first_keyword dangerous_keywords (upper []) = None"
      by (simp add: dangerous_keywords_def upper_def)
    then have "first_keyword dangerous_keywords (upper (strip q)) = None"
      using e by simp
    then show ?thesis
      using validate_no_keyword [of q] e by (simp add: upper_def startswith_def)
  qed
  show ?thesis using total empty semi blank by blast
qed

theorem validate_total_witness:
  "isspace CHR '' '' \<and> isspace (CHR 0x09) \<and> isspace (CHR 0x0A) \<and>
   validate_sql_query [CHR '' '', CHR 0x09, CHR 0x0A] =
     (False, ''Only SELECT queries are allowed in learning mode'')"
proof -
  have s: "isspace CHR '' ''" "isspace (CHR 0x09)" "isspace (CHR 0x0A)"
    by (simp_all add: isspace_def)
  then have h: "\<forall>c\<in>set [CHR '' '', CHR 0x09, CHR 0x0A]. isspace c"
    by simp
  show ?thesis
    using validate_total [of "[CHR '' '', CHR 0x09, CHR 0x0A]"] h s by blast
qed

section \<open>Properties of the result formatter\<close>

subsection \<open>The code computes the closed forms\<close>

lemma py_max_eq: "xs \<noteq> [] \<Longrightarrow> py_max xs = Inr (Max (set xs))"
proof (cases xs)
  case Nil
  assume "xs \<noteq> []"
  with Nil show ?thesis by simp
next
  case (Cons x ys)
  show ?thesis
    unfolding Cons by (simp only: py_max.simps Max.set_eq_fold)
qed

lemma col_width_eq:
  assumes "results \<noteq> []"
  shows "col_width results col = Inr (spec_col_width results col)"
proof -
  from assms have "map (\<lambda>row. length (py_str (row_get row col))) (take 10 results) \<noteq> []"
    by simp
  then show ?thesis
    by (simp add: col_width_def spec_col_width_def py_max_eq min.commute)
qed

lemma calc_col_widths_eq:
  assumes "results \<noteq> []"
  shows "calc_col_widths columns results m =
           Inr (\<lambda>c. if c \<in> set columns then Some (spec_col_width results c) else m c)"
proof (induction columns arbitrary: m)
  case Nil
  show ?case by simp
next
  case (Cons col columns)
  have "(\<lambda>c. if c \<in> set columns then Some (spec_col_width results c)
              else (m(col \<mapsto> spec_col_width results col)) c) =
        (\<lambda>c. if c \<in> set (col # columns) then Some (spec_col_width results c) else m c)"
    by (rule ext) simp
  then show ?case
    by (simp add: col_width_eq [OF assms] Cons.IH)
qed

lemma cells_eq:
  assumes "\<forall>c\<in>set columns. col_widths c = Some (w c)"
  shows "cells col_widths text columns = Inr (map (\<lambda>c. ljust (w c) (text c)) columns)"
  using assms by (induction columns) simp_all

lemma header_text_eq:
  assumes "\<forall>c\<in>set columns. col_widths c = Some (spec_col_width results c)"
  shows "header_text col_widths columns = Inr (table_header results columns)"
  by (simp add: header_text_def table_header_def cells_eq [OF assms])

lemma row_text_eq:
  assumes "\<forall>c\<in>set columns. col_widths c = Some (spec_col_width results c)"
  shows "row_text col_widths columns row = Inr (table_line results columns row)"
  by (simp add: row_text_def table_line_def cells_eq [OF assms])

lemma data_rows_eq:
  assumes "\<forall>c\<in>set columns. col_widths c = Some (spec_col_width results c)"
  shows "data_rows col_widths columns rows =
           Inr (map (\<lambda>row. table_line results columns row @ NL) rows)"
  by (induction rows) (simp_all add: row_text_eq [OF assms])

lemma py_float_cases:
  "py_float v = Inr () \<or> py_float v = Inl ValueError \<or> py_float v = Inl TypeError"
  by (cases v) simp_all

lemma numeric_cols_eq:
  "numeric_cols first columns =
     Inr (filter (\<lambda>col. py_float (row_get first col) = Inr ()) columns)"
proof (induction columns)
  case Nil
  show ?case by simp
next
  case (Cons col columns)
  show ?case
    using py_float_cases [of "row_get first col"] by (auto simp: Cons.IH)
qed

lemma add_result_analysis_eq:
  "add_result_analysis (first # rest) columns =
     Inr (analysis_head (first # rest) columns @ [bulb @ '' Learning Notes:'' @ NL] @
          numeric_note (filter (\<lambda>col. py_float (row_get first col) = Inr ()) columns) @
          date_note (date_cols columns) @ next_steps (first # rest))"
  by (simp add: add_result_analysis_def numeric_cols_eq)

lemma display_query_results_eq:
  assumes "results = first # rest" and "columns = map fst first"
  shows "display_query_results query results =
     Inr ([memo @ '' Executed Query:'' @ NL @ query @ NL @ NL,
           bar_chart @ '' Results: '' @ str_nat (length results) @ '' row(s) returned'' @ NL @ NL,
           table_header results columns @ NL,
           replicate (length (table_header results columns)) CHR ''-'' @ NL] @
          map (\<lambda>row. table_line results columns row @ NL) (take 100 results) @
          more_rows results @
          analysis_head results columns @ [bulb @ '' Learning Notes:'' @ NL] @
          numeric_note (filter (\<lambda>col. py_float (row_get first col) = Inr ()) columns) @
          date_note (date_cols columns) @ next_steps results)"
proof -
  have ne: "results \<noteq> []" using assms by simp
  define cw where "cw = (\<lambda>c. if c \<in> set columns then Some (spec_col_width results c) else None)"
  have cw: "calc_col_widths columns results Map.empty = Inr cw"
    unfolding cw_def by (rule calc_col_widths_eq [OF ne])
  have all: "\<forall>c\<in>set columns. cw c = Some (spec_col_width results c)"
    by (simp add: cw_def)
  have "display_query_results query (first # rest) =
     (case calc_col_widths columns (first # rest) Map.empty of
                Inl e \<Rightarrow> Inl e
              | Inr col_widths \<Rightarrow>
                  (case header_text col_widths columns of
                     Inl e \<Rightarrow> Inl e
                   | Inr header \<Rightarrow>
                       (case data_rows col_widths columns (take 100 (first # rest)) of
                          Inl e \<Rightarrow> Inl e
                        | Inr lines \<Rightarrow>
                            (case add_result_analysis (first # rest) columns of
                               Inl e \<Rightarrow> Inl e
                             | Inr analysis \<Rightarrow>
                                 Inr ([memo @ '' Executed Query:'' @ NL @ query @ NL @ NL] @ [bar_chart @ '' Results: '' @ str_nat (length (first # rest)) @ '' row(s) returned'' @ NL @ NL, header @ NL,
                                               replicate (length header) CHR ''-'' @ NL] @
                                      lines @ more_rows (first # rest) @ analysis)))))"
    unfolding display_query_results_def Let_def assms(2) by simp
  then show ?thesis
    unfolding assms(1) [symmetric]
    by (simp add: cw header_text_eq [OF all] data_rows_eq [OF all]
        add_result_analysis_eq [of first rest columns, folded assms(1)])
qed

lemma display_query_results_empty:
  "display_query_results query [] =
     Inr ([memo @ '' Executed Query:'' @ NL @ query @ NL @ NL] @ no_rows_text)"
  by (simp add: display_query_results_def)


lemma length_join:
  "length (join sep xs) = sum_list (map length xs) + length sep * (length xs - 1)"
  by (induction sep xs rule: join.induct) simp_all

lemma length_ljust: "length (ljust w s) = max w (length s)"
  by (auto simp: ljust_def max_def)

lemma length_ljust_fits: "length s \<le> w \<Longrightarrow> length (ljust w s) = w"
  by (simp add: ljust_def)

lemma length_join_cong:
  assumes "\<forall>c\<in>set cs. length (f c) = length (g c)"
  shows "length (join sep (map f cs)) = length (join sep (map g cs))"
proof -
  have "map length (map f cs) = map length (map g cs)"
    using assms by simp
  then show ?thesis
    unfolding length_join by (metis length_map)
qed

lemma spec_col_width_take:
  "take 10 results' = take 10 results \<Longrightarrow> spec_col_width results' col = spec_col_width results col"
  by (simp add: spec_col_width_def)

lemma mem_nonempty: "x \<in> set xs \<Longrightarrow> xs \<noteq> []"
  by auto

lemma numeric_note_nonempty:
  "ncs \<noteq> [] \<Longrightarrow> numeric_note ncs =
     [bullet @ '' Numeric columns detected: '' @ join '', '' ncs @ NL,
      ''  Try using functions like SUM(), AVG(), MIN(), MAX() on these!'' @ NL]"
  by (simp add: numeric_note_def)

lemma date_note_nonempty:
  "dcs \<noteq> [] \<Longrightarrow> date_note dcs =
     [bullet @ '' Date columns: '' @ join '', '' dcs @ NL,
      ''  Try using date functions and ORDER BY for time-based analysis!'' @ NL]"
  by (simp add: date_note_def)

subsection \<open>Claims\<close>



text \<open>
  C4, as stated, fails: for an empty result the code writes \<open>Results: No rows returned.\<close>
  and never the text \<open>0 row(s) returned\<close>.
\<close>

theorem empty_result_no_row_count_counterexample:
  "\<not> isl (display_query_results ''SELECT 1;'' []) \<and>
   \<not> py_in ''0 row(s) returned'' (concat (projr (display_query_results ''SELECT 1;'' [])))"
  by (simp add: display_query_results_empty no_rows_text_def memo_def bar_chart_def bulb_def bullet_def NL_def startswith_def)

text \<open>
  C4, amended.  For every query text, the report for an empty result is exactly: the
  echoed query, the line \<open>Results: No rows returned.\<close>, the caption \<open>This might mean:\<close>
  and the three fixed hint lines (no match, empty table, logical error); there is no
  header line, no data line and no analysis section.
\<close>

theorem empty_result_report:
  "display_query_results query [] =
     Inr [memo @ '' Executed Query:'' @ NL @ query @ NL @ NL,
          bar_chart @ '' Results: No rows returned.'' @ NL @ NL,
          bulb @ '' This might mean:'' @ NL,
          ''   '' @ bullet @ '' The query conditions didn't match any data'' @ NL,
          ''   '' @ bullet @ '' The table is empty'' @ NL,
          ''   '' @ bullet @ '' There might be a logical error in the query'' @ NL]"
  by (simp add: display_query_results_empty no_rows_text_def)

text \<open>
  C5.  For a non-empty result the report holds, after the echoed query, the row count,
  the header and the separator, one data line per row of the first 100 rows, in the order
  of the rows, so \<open>min 100 N\<close> of them for \<open>N\<close> rows.  A line \<open>... and N-100 more rows\<close>
  follows them exactly when \<open>N\<close> exceeds 100; the analysis comes after.  With 150 rows
  there are 100 data lines and the line is \<open>... and 50 more rows\<close>.
\<close>

theorem report_data_lines_and_more_rows:
  assumes "results = first # rest" and "columns = map fst first"
  shows "\<exists>analysis.
     add_result_analysis results columns = Inr analysis \<and>
     display_query_results query results =
       Inr ([memo @ '' Executed Query:'' @ NL @ query @ NL @ NL,
             bar_chart @ '' Results: '' @ str_nat (length results) @ '' row(s) returned'' @ NL @ NL,
             table_header results columns @ NL,
             replicate (length (table_header results columns)) CHR ''-'' @ NL] @
            map (\<lambda>row. table_line results columns row @ NL) (take 100 results) @
            (if 100 < length results
             then [NL @ ''... and '' @ str_nat (length results - 100) @ '' more rows'' @ NL]
             else []) @
            analysis) \<and>
     length (map (\<lambda>row. table_line results columns row @ NL) (take 100 results)) =
       min 100 (length results) \<and>
     (length results = 150 \<longrightarrow>
        length (take 100 results) = 100 \<and>
        NL @ ''... and '' @ str_nat (length results - 100) @ '' more rows'' @ NL =
          NL @ ''... and 50 more rows'' @ NL)"
proof -
  have fifty: "str_nat 50 = ''50''"
    by (simp add: str_nat.simps digit_char_def)
  have a: "add_result_analysis results columns =
     Inr (analysis_head results columns @ [bulb @ '' Learning Notes:'' @ NL] @
          numeric_note (filter (\<lambda>col. py_float (row_get first col) = Inr ()) columns) @
          date_note (date_cols columns) @ next_steps results)"
    unfolding assms(1) by (rule add_result_analysis_eq)
  show ?thesis
    using display_query_results_eq [OF assms, of query] a
    by (auto simp: more_rows_def fifty min.commute)
qed

theorem report_data_lines_and_more_rows_witness:
  "length (replicate 150 [(''id'', PyInt 7)]) = 150 \<and>
   drop 104 (take 105 (projr (display_query_results ''q'' (replicate 150 [(''id'', PyInt 7)])))) = [NL @ ''... and 50 more rows'' @ NL]"
proof -
  have r: "replicate 150 [(''id'', PyInt 7)] = [(''id'', PyInt 7)] # replicate 149 [(''id'', PyInt 7)]"
    by (simp add: numeral_eq_Suc)
  have l: "length (replicate 150 [(''id'', PyInt 7)]) = 150" by simp
  show ?thesis
    using report_data_lines_and_more_rows [OF r refl, of "''q''"] l
    by auto
qed

text \<open>
  C6.  For a non-empty result the loop over the columns returns a dict that gives every
  column the width \<open>min 20 (max (len name) m)\<close>, where \<open>m\<close> is the largest length of the
  column's stringified value over the first 10 rows (all rows, when there are fewer).  A
  result with the same first 10 rows gets the same dict: later rows have no influence.
\<close>

theorem column_width_formula:
  assumes "results \<noteq> []"
  shows "\<exists>col_widths.
     calc_col_widths columns results Map.empty = Inr col_widths \<and>
     (\<forall>col\<in>set columns.
        col_widths col =
          Some (min 20 (max (length col)
                  (Max (set (map (\<lambda>row. length (py_str (row_get row col))) (take 10 results))))))) \<and>
     (\<forall>results'. take 10 results' = take 10 results \<longrightarrow>
        calc_col_widths columns results' Map.empty = Inr col_widths)"
proof -
  let ?cw = "\<lambda>c. if c \<in> set columns then Some (spec_col_width results c) else None"
  have 1: "calc_col_widths columns results Map.empty = Inr ?cw"
    by (rule calc_col_widths_eq [OF assms])
  have 2: "\<forall>col\<in>set columns. ?cw col =
          Some (min 20 (max (length col)
                  (Max (set (map (\<lambda>row. length (py_str (row_get row col))) (take 10 results))))))"
    by (simp add: spec_col_width_def)
  have 3: "calc_col_widths columns results' Map.empty = Inr ?cw"
    if t: "take 10 results' = take 10 results" for results'
  proof -
    have "results' \<noteq> []" using t assms by auto
    then have c: "calc_col_widths columns results' Map.empty =
        Inr (\<lambda>c. if c \<in> set columns then Some (spec_col_width results' c) else None)"
      by (rule calc_col_widths_eq)
    have e: "spec_col_width results' = spec_col_width results"
      by (rule ext) (rule spec_col_width_take [OF t])
    show ?thesis unfolding c e ..
  qed
  show ?thesis using 1 2 3 by blast
qed

theorem column_width_formula_witness:
  "[[(''name'', PyStr ''Al'')], [(''name'', PyStr ''Barbara'')]] \<noteq> [] \<and>
   projr (calc_col_widths [''name''] [[(''name'', PyStr ''Al'')], [(''name'', PyStr ''Barbara'')]]
            Map.empty) ''name'' = Some 7"
proof -
  have h: "[[(''name'', PyStr ''Al'')], [(''name'', PyStr ''Barbara'')]] \<noteq> []" by simp
  obtain cw where
    1: "calc_col_widths [''name''] [[(''name'', PyStr ''Al'')], [(''name'', PyStr ''Barbara'')]]
          Map.empty = Inr cw" and
    2: "\<forall>col\<in>set [''name''].
        cw col =
          Some (min 20 (max (length col)
                  (Max (set (map (\<lambda>row. length (py_str (row_get row col)))
                     (take 10 [[(''name'', PyStr ''Al'')], [(''name'', PyStr ''Barbara'')]]))))))"
    using column_width_formula [OF h, of "[''name'']"] by blast
  from 2 have "cw ''name'' = Some 7"
    by (simp add: row_get_def)
  then show ?thesis using 1 by simp
qed

text \<open>
  C7, as stated, fails: a cell is never truncated.  With one column \<open>c\<close> and one value
  of 26 characters the width is 20, the header line is \<open>c\<close> padded to 20 characters, and
  the data line is the whole value, 26 characters long.
\<close>

theorem cell_not_truncated_counterexample:
  "\<not> isl (display_query_results ''q'' [[(''c'', PyStr ''abcdefghijklmnopqrstuvwxyz'')]]) \<and>
   projr (calc_col_widths [''c''] [[(''c'', PyStr ''abcdefghijklmnopqrstuvwxyz'')]] Map.empty) ''c'' =
     Some 20 \<and>
   projr (display_query_results ''q'' [[(''c'', PyStr ''abcdefghijklmnopqrstuvwxyz'')]]) ! 2 =
     ''c                   '' @ NL \<and>
   projr (display_query_results ''q'' [[(''c'', PyStr ''abcdefghijklmnopqrstuvwxyz'')]]) ! 4 =
     ''abcdefghijklmnopqrstuvwxyz'' @ NL \<and>
   length ''abcdefghijklmnopqrstuvwxyz'' = 26 \<and>
   length ''c                   '' = 20"
proof -
  have w: "spec_col_width [[(''c'', PyStr ''abcdefghijklmnopqrstuvwxyz'')]] ''c'' = 20"
    by (simp add: spec_col_width_def row_get_def)
  have cw: "calc_col_widths [''c''] [[(''c'', PyStr ''abcdefghijklmnopqrstuvwxyz'')]] Map.empty =
      Inr (\<lambda>c. if c \<in> set [''c'']
                then Some (spec_col_width [[(''c'', PyStr ''abcdefghijklmnopqrstuvwxyz'')]] c)
                else None)"
    by (rule calc_col_widths_eq) simp
  have h: "table_header [[(''c'', PyStr ''abcdefghijklmnopqrstuvwxyz'')]] [''c''] =
      ''c                   ''"
    by (simp add: table_header_def w ljust_def numeral_eq_Suc)
  have l: "table_line [[(''c'', PyStr ''abcdefghijklmnopqrstuvwxyz'')]] [''c'']
      [(''c'', PyStr ''abcdefghijklmnopqrstuvwxyz'')] = ''abcdefghijklmnopqrstuvwxyz''"
    by (simp add: table_line_def w ljust_def row_get_def)
  have c: "projr (calc_col_widths [''c''] [[(''c'', PyStr ''abcdefghijklmnopqrstuvwxyz'')]]
      Map.empty) ''c'' = Some 20"
    unfolding cw by (simp add: w)
  have "display_query_results ''q'' [[(''c'', PyStr ''abcdefghijklmnopqrstuvwxyz'')]] =
      Inr ([memo @ '' Executed Query:'' @ NL @ ''q'' @ NL @ NL,
           bar_chart @ '' Results: '' @
             str_nat (length [[(''c'', PyStr ''abcdefghijklmnopqrstuvwxyz'')]]) @
             '' row(s) returned'' @ NL @ NL,
           ''c                   '' @ NL,
           replicate (length ''c                   '') CHR ''-'' @ NL] @
          [''abcdefghijklmnopqrstuvwxyz'' @ NL] @
          more_rows [[(''c'', PyStr ''abcdefghijklmnopqrstuvwxyz'')]] @
          analysis_head [[(''c'', PyStr ''abcdefghijklmnopqrstuvwxyz'')]] [''c''] @
          [bulb @ '' Learning Notes:'' @ NL] @
          numeric_note (filter (\<lambda>col. py_float
             (row_get [(''c'', PyStr ''abcdefghijklmnopqrstuvwxyz'')] col) = Inr ()) [''c'']) @
          date_note (date_cols [''c'']) @
          next_steps [[(''c'', PyStr ''abcdefghijklmnopqrstuvwxyz'')]])"
    using display_query_results_eq [OF refl refl, of "''q''" "[(''c'', PyStr ''abcdefghijklmnopqrstuvwxyz'')]" "[]"]
    by (simp add: h l)
  then have "\<not> isl (display_query_results ''q'' [[(''c'', PyStr ''abcdefghijklmnopqrstuvwxyz'')]]) \<and>
     projr (display_query_results ''q'' [[(''c'', PyStr ''abcdefghijklmnopqrstuvwxyz'')]]) ! 2 =
       ''c                   '' @ NL \<and>
     projr (display_query_results ''q'' [[(''c'', PyStr ''abcdefghijklmnopqrstuvwxyz'')]]) ! 4 =
       ''abcdefghijklmnopqrstuvwxyz'' @ NL"
    by simp
  then show ?thesis using c by simp
qed

text \<open>
  C7, amended.  For a non-empty result, each cell of the header line and of every data
  line is its text left-justified in the column's width: blanks are appended up to the
  width and a longer text is left whole, so the cell is \<open>max width (len text)\<close> long.  The
  cells are joined by \<open>" | "\<close>, and the separator line is \<open>-\<close> repeated the header's
  length.  A data line whose cell texts, like the column names, all fit their widths is as
  long as the header line.  The widths are those of the dict \<open>col_widths\<close>.
\<close>

theorem table_layout_left_justified:
  assumes "results = first # rest" and "columns = map fst first"
  shows "\<exists>report header.
     display_query_results query results = Inr report \<and>
     header = join '' | '' (map (\<lambda>col. ljust (spec_col_width results col) col) columns) \<and>
     report ! 2 = header @ NL \<and>
     report ! 3 = replicate (length header) CHR ''-'' @ NL \<and>
     (\<forall>i<min 100 (length results).
        report ! (4 + i) =
          join '' | '' (map (\<lambda>col. ljust (spec_col_width results col)
                                         (py_str (row_get (results ! i) col))) columns) @ NL \<and>
        ((\<forall>col\<in>set columns.
            length col \<le> spec_col_width results col \<and>
            length (py_str (row_get (results ! i) col)) \<le> spec_col_width results col) \<longrightarrow>
         length (report ! (4 + i)) = length (report ! 2))) \<and>
     (\<forall>w s. ljust w s = s @ replicate (w - length s) CHR '' '' \<and>
            length (ljust w s) = max w (length s)) \<and>
     calc_col_widths columns results Map.empty =
       Inr (\<lambda>col. if col \<in> set columns then Some (spec_col_width results col) else None)"
proof -
  let ?top = "[memo @ '' Executed Query:'' @ NL @ query @ NL @ NL,
           bar_chart @ '' Results: '' @ str_nat (length results) @ '' row(s) returned'' @ NL @ NL,
           table_header results columns @ NL,
           replicate (length (table_header results columns)) CHR ''-'' @ NL]"
  let ?lines = "map (\<lambda>row. table_line results columns row @ NL) (take 100 results)"
  let ?rest = "more_rows results @
          analysis_head results columns @ [bulb @ '' Learning Notes:'' @ NL] @
          numeric_note (filter (\<lambda>col. py_float (row_get first col) = Inr ()) columns) @
          date_note (date_cols columns) @ next_steps results"
  let ?report = "?top @ ?lines @ ?rest"
  have r: "display_query_results query results = Inr ?report"
    using display_query_results_eq [OF assms, of query] by simp
  have h2: "?report ! 2 = table_header results columns @ NL" by simp
  have h3: "?report ! 3 = replicate (length (table_header results columns)) CHR ''-'' @ NL"
    by simp
  have line: "?report ! (4 + i) = table_line results columns (results ! i) @ NL"
    if "i < min 100 (length results)" for i
  proof -
    have "?report ! (4 + i) = (?lines @ ?rest) ! i"
      by (simp add: nth_append)
    also have "\<dots> = ?lines ! i"
      using that by (simp add: nth_append)
    also have "\<dots> = table_line results columns (results ! i) @ NL"
      using that by simp
    finally show ?thesis .
  qed
  have same: "length (?report ! (4 + i)) = length (?report ! 2)"
    if i: "i < min 100 (length results)"
      and fit: "\<forall>col\<in>set columns.
            length col \<le> spec_col_width results col \<and>
            length (py_str (row_get (results ! i) col)) \<le> spec_col_width results col"
    for i
  proof -
    have "\<forall>c\<in>set columns.
        length (ljust (spec_col_width results c) (py_str (row_get (results ! i) c))) =
        length (ljust (spec_col_width results c) c)"
      using fit by (simp add: length_ljust_fits)
    then have "length (table_line results columns (results ! i)) =
        length (table_header results columns)"
      unfolding table_line_def table_header_def by (rule length_join_cong)
    then show ?thesis
      unfolding line [OF i] h2 by simp
  qed
  have lj: "\<forall>w s. ljust w s = s @ replicate (w - length s) CHR '' '' \<and>
            length (ljust w s) = max w (length s)"
    by (auto simp: ljust_def max_def)
  show ?thesis
  proof (intro exI conjI)
    show "display_query_results query results = Inr ?report" by (rule r)
    show "table_header results columns =
        join '' | '' (map (\<lambda>col. ljust (spec_col_width results col) col) columns)"
      by (simp add: table_header_def)
    show "?report ! 2 = table_header results columns @ NL" by (rule h2)
    show "?report ! 3 = replicate (length (table_header results columns)) CHR ''-'' @ NL"
      by (rule h3)
    show "\<forall>i<min 100 (length results).
        ?report ! (4 + i) =
          join '' | '' (map (\<lambda>col. ljust (spec_col_width results col)
                                         (py_str (row_get (results ! i) col))) columns) @ NL \<and>
        ((\<forall>col\<in>set columns.
            length col \<le> spec_col_width results col \<and>
            length (py_str (row_get (results ! i) col)) \<le> spec_col_width results col) \<longrightarrow>
         length (?report ! (4 + i)) = length (?report ! 2))"
      using line same by (simp add: table_line_def)
    show "\<forall>w s. ljust w s = s @ replicate (w - length s) CHR '' '' \<and>
            length (ljust w s) = max w (length s)"
      by (rule lj)
    show "calc_col_widths columns results Map.empty =
        Inr (\<lambda>col. if col \<in> set columns then Some (spec_col_width results col) else None)"
      by (rule calc_col_widths_eq) (simp add: assms(1))
  qed
qed

theorem table_layout_left_justified_witness:
  "projr (display_query_results ''q'' [[(''id'', PyInt 1), (''name'', PyStr ''Al'')]]) ! 2 =
     ''id | name'' @ NL \<and>
   projr (display_query_results ''q'' [[(''id'', PyInt 1), (''name'', PyStr ''Al'')]]) ! 3 =
     ''---------'' @ NL \<and>
   projr (display_query_results ''q'' [[(''id'', PyInt 1), (''name'', PyStr ''Al'')]]) ! 4 =
     ''1  | Al  '' @ NL"
proof -
  let ?results = "[[(''id'', PyInt 1), (''name'', PyStr ''Al'')]]"
  have w1: "spec_col_width ?results ''id'' = 2"
    by (simp add: spec_col_width_def row_get_def str_int_def str_nat.simps digit_char_def)
  have w2: "spec_col_width ?results ''name'' = 4"
    by (simp add: spec_col_width_def row_get_def)
  obtain report header where
    r: "display_query_results ''q'' ?results = Inr report" and
    h: "header = join '' | '' (map (\<lambda>col. ljust (spec_col_width ?results col) col)
          (map fst [(''id'', PyInt 1), (''name'', PyStr ''Al'')]))" and
    h2: "report ! 2 = header @ NL" and
    h3: "report ! 3 = replicate (length header) CHR ''-'' @ NL" and
    l: "\<forall>i<min 100 (length ?results).
        report ! (4 + i) =
          join '' | '' (map (\<lambda>col. ljust (spec_col_width ?results col)
                                         (py_str (row_get (?results ! i) col)))
             (map fst [(''id'', PyInt 1), (''name'', PyStr ''Al'')])) @ NL \<and>
        ((\<forall>col\<in>set (map fst [(''id'', PyInt 1), (''name'', PyStr ''Al'')]).
            length col \<le> spec_col_width ?results col \<and>
            length (py_str (row_get (?results ! i) col)) \<le> spec_col_width ?results col) \<longrightarrow>
         length (report ! (4 + i)) = length (report ! 2))"
    using table_layout_left_justified [OF refl refl, of "''q''" "[(''id'', PyInt 1), (''name'', PyStr ''Al'')]" "[]"]
    by blast
  have hd: "header = ''id | name''"
    unfolding h by (simp add: w1 w2 ljust_def)
  have "report ! (4 + 0) =
          join '' | '' (map (\<lambda>col. ljust (spec_col_width ?results col)
                                         (py_str (row_get (?results ! 0) col)))
             (map fst [(''id'', PyInt 1), (''name'', PyStr ''Al'')])) @ NL"
    using l by simp
  then have l0: "report ! 4 = ''1  | Al  '' @ NL"
    by (simp add: w1 w2 ljust_def row_get_def str_int_def str_nat.simps digit_char_def
        numeral_eq_Suc)
  show ?thesis
    using r h2 h3 l0 by (simp add: hd numeral_eq_Suc)
qed



text \<open>
  C10.  Numeric detection and date detection do not exclude each other: a column of a
  non-empty result whose name contains \<open>date\<close> or \<open>time\<close>, case-insensitively, and whose
  first-row value \<open>float\<close> accepts is named both in the line \<open>Numeric columns detected\<close>
  and in the line \<open>Date columns\<close> of the same report.
\<close>

theorem numeric_and_date_detection_independent:
  assumes "col \<in> set (map fst first)"
    and "py_in ''date'' (lower col) \<or> py_in ''time'' (lower col)"
    and "py_float (row_get first col) = Inr ()"
  shows "\<exists>table ncs dcs.
     display_query_results query (first # rest) =
       Inr (table @
            analysis_head (first # rest) (map fst first) @ [bulb @ '' Learning Notes:'' @ NL] @
            [bullet @ '' Numeric columns detected: '' @ join '', '' ncs @ NL,
             ''  Try using functions like SUM(), AVG(), MIN(), MAX() on these!'' @ NL] @
            [bullet @ '' Date columns: '' @ join '', '' dcs @ NL,
             ''  Try using date functions and ORDER BY for time-based analysis!'' @ NL] @
            next_steps (first # rest)) \<and>
     numeric_cols first (map fst first) = Inr ncs \<and>
     dcs = date_cols (map fst first) \<and>
     col \<in> set ncs \<and> col \<in> set dcs"
proof -
  let ?results = "first # rest"
  let ?columns = "map fst first"
  let ?ncs = "filter (\<lambda>col. py_float (row_get first col) = Inr ()) ?columns"
  let ?table = "[memo @ '' Executed Query:'' @ NL @ query @ NL @ NL,
           bar_chart @ '' Results: '' @ str_nat (length ?results) @ '' row(s) returned'' @ NL @ NL,
           table_header ?results ?columns @ NL,
           replicate (length (table_header ?results ?columns)) CHR ''-'' @ NL] @
          map (\<lambda>row. table_line ?results ?columns row @ NL) (take 100 ?results) @
          more_rows ?results"
  have n: "col \<in> set ?ncs" using assms(1,3) by simp
  have d: "col \<in> set (date_cols ?columns)" using assms(1,2) by (simp add: date_cols_def)
  have nn: "?ncs \<noteq> []" by (rule mem_nonempty [OF n])
  have dn: "date_cols ?columns \<noteq> []" by (rule mem_nonempty [OF d])
  have "display_query_results query ?results =
       Inr (?table @
            analysis_head ?results ?columns @ [bulb @ '' Learning Notes:'' @ NL] @
            [bullet @ '' Numeric columns detected: '' @ join '', '' ?ncs @ NL,
             ''  Try using functions like SUM(), AVG(), MIN(), MAX() on these!'' @ NL] @
            [bullet @ '' Date columns: '' @ join '', '' (date_cols ?columns) @ NL,
             ''  Try using date functions and ORDER BY for time-based analysis!'' @ NL] @
            next_steps ?results)"
    unfolding display_query_results_eq [OF refl refl]
      numeric_note_nonempty [OF nn] date_note_nonempty [OF dn]
    by simp
  moreover have "numeric_cols first ?columns = Inr ?ncs"
    by (rule numeric_cols_eq)
  ultimately show ?thesis using n d by blast
qed

theorem numeric_and_date_detection_independent_witness:
  "''created_time'' \<in> set (map fst [(''id'', PyInt 1), (''created_time'', PyStr ''1700000000'')]) \<and>
   py_in ''time'' (lower ''created_time'') \<and>
   py_float (row_get [(''id'', PyInt 1), (''created_time'', PyStr ''1700000000'')] ''created_time'') = Inr () \<and>
   ''created_time'' \<in> set (date_cols (map fst [(''id'', PyInt 1), (''created_time'', PyStr ''1700000000'')])) \<and>
   ''created_time'' \<in> set (projr (numeric_cols [(''id'', PyInt 1), (''created_time'', PyStr ''1700000000'')]
      (map fst [(''id'', PyInt 1), (''created_time'', PyStr ''1700000000'')])))"
proof -
  have h1: "''created_time'' \<in> set (map fst [(''id'', PyInt 1), (''created_time'', PyStr ''1700000000'')])"
    by simp
  have t: "py_in ''time'' (lower ''created_time'')" by code_simp
  then have h2: "py_in ''date'' (lower ''created_time'') \<or> py_in ''time'' (lower ''created_time'')" ..
  have f: "float_syntax ''1700000000'' = True" by code_simp
  have h3: "py_float (row_get [(''id'', PyInt 1), (''created_time'', PyStr ''1700000000'')] ''created_time'') = Inr ()"
    by (simp add: row_get_def f)
  obtain ncs dcs where
    "numeric_cols [(''id'', PyInt 1), (''created_time'', PyStr ''1700000000'')]
       (map fst [(''id'', PyInt 1), (''created_time'', PyStr ''1700000000'')]) = Inr ncs"
    "dcs = date_cols (map fst [(''id'', PyInt 1), (''created_time'', PyStr ''1700000000'')])"
    "''created_time'' \<in> set ncs" "''created_time'' \<in> set dcs"
    using numeric_and_date_detection_independent [OF h1 h2 h3, of "''q''" "[]"] by blast
  then show ?thesis using h1 t h3 by simp
qed

end
